theory Spec2Isabelle
  imports Main "HOL-Library.Sublist"
begin

section \<open>Python values, strings and exceptions\<close>

text \<open>
  The view function \<^verbatim>\<open>upload\<close> of \<^verbatim>\<open>Time_Entry/app.py\<close> works on two
  lists of rows: \<^verbatim>\<open>all_rows\<close> (the monthly sheet, read through pyxlsb) and
  \<^verbatim>\<open>mgr_rows\<close> (the roster, read through openpyxl). A cell value is an untyped
  Python object: \<^verbatim>\<open>None\<close>, a \<^verbatim>\<open>str\<close>, a number or a \<^verbatim>\<open>bool\<close>.
  Numbers are modelled by Python's unbounded \<^verbatim>\<open>int\<close> (a float cell differs from
  it only in its string form); strings are sequences of code points below 256, the range of
  \<^typ>\<open>char\<close>.

  Steps 1 to 4 of the view (the upload check, saving the files, expanding outlines, choosing
  and reading the sheet) and the reading of the roster file produce these two lists or end
  the request before any of the code below runs; the model starts from the lists.
\<close>

datatype pyval = PNone | PStr string | PInt int | PBool bool

datatype exn = AttributeError | IndexError | StopIteration

text \<open>Truth value of an object, as \<^verbatim>\<open>if v\<close> and \<^verbatim>\<open>v or ''\<close> test it.\<close>

fun truthy :: "pyval \<Rightarrow> bool" where
  "truthy PNone = False"
| "truthy (PStr s) = (s \<noteq> [])"
| "truthy (PInt i) = (i \<noteq> 0)"
| "truthy (PBool b) = b"

text \<open>\<^verbatim>\<open>v or ''\<close>\<close>

definition or_empty :: "pyval \<Rightarrow> pyval" where
  "or_empty v = (if truthy v then v else PStr [])"

text \<open>\<^verbatim>\<open>str(v)\<close>: decimal digits for an int, the object's name otherwise.\<close>

definition digit_char :: "nat \<Rightarrow> char" where
  "digit_char d = char_of (48 + d)"

fun digits :: "nat \<Rightarrow> string" where
  "digits n = (if n < 10 then [digit_char n] else digits (n div 10) @ [digit_char (n mod 10)])"

declare digits.simps [simp del]

definition str_int :: "int \<Rightarrow> string" where
  "str_int i = (if i < 0 then CHR ''-'' # digits (nat (- i)) else digits (nat i))"

fun py_str :: "pyval \<Rightarrow> string" where
  "py_str PNone = ''None''"
| "py_str (PStr s) = s"
| "py_str (PInt i) = str_int i"
| "py_str (PBool b) = (if b then ''True'' else ''False'')"

text \<open>
  \<^verbatim>\<open>str.isspace\<close> on one character: the code points below 256 whose Unicode
  class is whitespace (TAB..CR, FS..US, SPACE, NEL, NBSP).
\<close>

definition py_isspace :: "char \<Rightarrow> bool" where
  "py_isspace c = (c \<in> set [CHR 0x09, CHR 0x0A, CHR 0x0B, CHR 0x0C, CHR 0x0D,
                             CHR 0x1C, CHR 0x1D, CHR 0x1E, CHR 0x1F, CHR 0x20,
                             CHR 0x85, CHR 0xA0])"

text \<open>\<^verbatim>\<open>s.strip()\<close>\<close>

definition py_strip :: "string \<Rightarrow> string" where
  "py_strip s = rev (dropWhile py_isspace (rev (dropWhile py_isspace s)))"

text \<open>
  \<^verbatim>\<open>s.lower()\<close>: A..Z and the Latin-1 capitals (0xC0..0xDE but the
  multiplication sign 0xD7) move up by 32, every other code point stays.
\<close>

definition lower_char :: "char \<Rightarrow> char" where
  "lower_char c =
     (let n = (of_char c :: nat)
      in if (65 \<le> n \<and> n \<le> 90) \<or> (192 \<le> n \<and> n \<le> 222 \<and> n \<noteq> 215)
         then char_of (n + 32) else c)"

definition py_lower :: "string \<Rightarrow> string" where
  "py_lower s = map lower_char s"

text \<open>\<^verbatim>\<open>sub in s\<close> on strings: \<^verbatim>\<open>sub\<close> occurs in \<^verbatim>\<open>s\<close> as a contiguous run.\<close>

fun py_in :: "string \<Rightarrow> string \<Rightarrow> bool" where
  "py_in sub [] = (sub = [])"
| "py_in sub (c # cs) = (prefix sub (c # cs) \<or> py_in sub cs)"

text \<open>
  \<^verbatim>\<open>s.split(sep, 1)\<close> for a one-character separator: one part when the
  separator does not occur, otherwise the text before its first occurrence and the whole
  text after it.
\<close>

definition py_split1 :: "char \<Rightarrow> string \<Rightarrow> string list" where
  "py_split1 sep s =
     (case dropWhile (\<lambda>c. c \<noteq> sep) s of
        [] \<Rightarrow> [s]
      | _ # rest \<Rightarrow> [takeWhile (\<lambda>c. c \<noteq> sep) s, rest])"

text \<open>\<^verbatim>\<open>xs[i]\<close> for an index that \<^verbatim>\<open>enumerate\<close> produced (never negative).\<close>

definition py_index :: "'a list \<Rightarrow> nat \<Rightarrow> exn + 'a" where
  "py_index xs i = (if i < length xs then Inr (xs ! i) else Inl IndexError)"

text \<open>
  \<^verbatim>\<open>next(i for i, h in enumerate(headers) if P(h))\<close>; \<open>None\<close> stands for the
  exhausted generator (\<^verbatim>\<open>StopIteration\<close>, or the default of \<^verbatim>\<open>next\<close>).
\<close>

fun first_index :: "('a \<Rightarrow> bool) \<Rightarrow> 'a list \<Rightarrow> nat option" where
  "first_index P [] = None"
| "first_index P (h # hs) = (if P h then Some 0 else map_option Suc (first_index P hs))"

section \<open>Step 5: the header row of the monthly sheet\<close>

text \<open>
  \<^verbatim>\<open>(cell.v or '').strip()\<close>: a cell that is true and not a \<^verbatim>\<open>str\<close> has no
  method \<^verbatim>\<open>strip\<close>, and the attribute lookup raises.
\<close>

definition strip_cell :: "pyval \<Rightarrow> exn + string" where
  "strip_cell v = (case or_empty v of PStr s \<Rightarrow> Inr (py_strip s) | _ \<Rightarrow> Inl AttributeError)"

text \<open>\<^verbatim>\<open>vals = [(cell.v or '').strip() for cell in row]\<close>\<close>

fun row_vals :: "pyval list \<Rightarrow> exn + string list" where
  "row_vals [] = Inr []"
| "row_vals (v # vs) =
     (case strip_cell v of
        Inl e \<Rightarrow> Inl e
      | Inr s \<Rightarrow> (case row_vals vs of Inl e \<Rightarrow> Inl e | Inr ss \<Rightarrow> Inr (s # ss)))"

text \<open>The four detectors, on one cell text.\<close>

definition is_level :: "string \<Rightarrow> bool" where
  "is_level v = py_in ''level'' (py_lower v)"

definition is_empname :: "string \<Rightarrow> bool" where
  "is_empname v = (py_in ''emp'' (py_lower v) \<and> py_in ''name'' (py_lower v))"

definition is_email :: "string \<Rightarrow> bool" where
  "is_email v = py_in ''email'' (py_lower v)"

definition is_missing :: "string \<Rightarrow> bool" where
  "is_missing v = list_all (\<lambda>x. py_in x (py_lower v)) [''sum'', ''missing'', ''time'']"

text \<open>\<^verbatim>\<open>has_level and has_empname and has_email and has_missing\<close>\<close>

definition is_header_row :: "string list \<Rightarrow> bool" where
  "is_header_row vals =
     (list_ex is_level vals \<and> list_ex is_empname vals \<and>
      list_ex is_email vals \<and> list_ex is_missing vals)"

text \<open>
  The loop \<^verbatim>\<open>for i, row in enumerate(all_rows)\<close> with its \<^verbatim>\<open>break\<close>;
  \<open>None\<close> is \<^verbatim>\<open>header_idx is None\<close> after the loop.
\<close>

fun find_header :: "nat \<Rightarrow> pyval list list \<Rightarrow> exn + (nat \<times> string list) option" where
  "find_header i [] = Inr None"
| "find_header i (row # rows) =
     (case row_vals row of
        Inl e \<Rightarrow> Inl e
      | Inr vals \<Rightarrow>
          if is_header_row vals then Inr (Some (i, vals)) else find_header (Suc i) rows)"

section \<open>Step 6: the columns of the monthly sheet\<close>

record columns =
  idx_level :: nat
  idx_empinfo :: nat
  idx_email :: nat
  idx_missing :: nat

text \<open>The \<^verbatim>\<open>try\<close> block of four \<^verbatim>\<open>next\<close> calls; \<open>None\<close> is the caught
  \<^verbatim>\<open>StopIteration\<close>.\<close>

definition locate_columns :: "string list \<Rightarrow> columns option" where
  "locate_columns headers =
     (case first_index is_level headers of
        None \<Rightarrow> None
      | Some l \<Rightarrow>
     (case first_index is_empname headers of
        None \<Rightarrow> None
      | Some n \<Rightarrow>
     (case first_index is_email headers of
        None \<Rightarrow> None
      | Some e \<Rightarrow>
     (case first_index is_missing headers of
        None \<Rightarrow> None
      | Some m \<Rightarrow>
          Some \<lparr>idx_level = l, idx_empinfo = n, idx_email = e, idx_missing = m\<rparr>))))"

section \<open>Step 7: the roster\<close>

text \<open>
  The loop over \<^verbatim>\<open>mgr_rows\<close>; the rows left after the header row are
  \<^verbatim>\<open>mgr_rows[i+1:]\<close>.
\<close>

fun find_roster_header :: "pyval list list \<Rightarrow> exn + (string list \<times> pyval list list) option" where
  "find_roster_header [] = Inr None"
| "find_roster_header (row # rows) =
     (case row_vals row of
        Inl e \<Rightarrow> Inl e
      | Inr vals \<Rightarrow>
          if list_ex is_email vals then Inr (Some (vals, rows)) else find_roster_header rows)"

text \<open>\<^verbatim>\<open>'name' in h.lower() and 'email' not in h.lower()\<close>\<close>

definition is_name_only :: "string \<Rightarrow> bool" where
  "is_name_only h = (py_in ''name'' (py_lower h) \<and> \<not> py_in ''email'' (py_lower h))"

text \<open>\<^verbatim>\<open>str(v).strip().lower()\<close>\<close>

definition norm_key :: "pyval \<Rightarrow> string" where
  "norm_key v = py_lower (py_strip (py_str v))"

text \<open>
  \<^verbatim>\<open>{str(r[idx]).strip().lower() for r in mgr_data if r[idx]}\<close>; a row shorter
  than the column raises \<^verbatim>\<open>IndexError\<close>.
\<close>

fun lookup_set :: "nat \<Rightarrow> pyval list list \<Rightarrow> exn + string set" where
  "lookup_set idx [] = Inr {}"
| "lookup_set idx (r # rs) =
     (case py_index r idx of
        Inl e \<Rightarrow> Inl e
      | Inr v \<Rightarrow>
          (case lookup_set idx rs of
             Inl e \<Rightarrow> Inl e
           | Inr S \<Rightarrow> Inr (if truthy v then insert (norm_key v) S else S)))"

text \<open>
  Lines 135 to 152: the two roster columns and the two lookup sets. The first
  \<^verbatim>\<open>next\<close> has no default, so an exhausted generator raises.
\<close>

definition build_lookup_sets ::
  "string list \<Rightarrow> pyval list list \<Rightarrow> exn + (string set \<times> string set)" where
  "build_lookup_sets hdr2 mgr_data =
     (case first_index is_email hdr2 of
        None \<Rightarrow> Inl StopIteration
      | Some idx_email_mgr \<Rightarrow>
          (case lookup_set idx_email_mgr mgr_data of
             Inl e \<Rightarrow> Inl e
           | Inr mgr_emails \<Rightarrow>
               (case first_index is_name_only hdr2 of
                  None \<Rightarrow> Inr (mgr_emails, {})
                | Some idx_name_mgr \<Rightarrow>
                    (case lookup_set idx_name_mgr mgr_data of
                       Inl e \<Rightarrow> Inl e
                     | Inr mgr_names \<Rightarrow> Inr (mgr_emails, mgr_names)))))"

section \<open>Step 8: filtering the data rows\<close>

record entry =
  Level :: pyval
  Name :: string
  Email_ID :: pyval
  Missing_Time :: pyval

text \<open>\<^verbatim>\<open>lvl_cell is not None and str(lvl_cell).strip()\<close>\<close>

definition is_group_row :: "pyval \<Rightarrow> bool" where
  "is_group_row lvl_cell = (lvl_cell \<noteq> PNone \<and> py_strip (py_str lvl_cell) \<noteq> [])"

text \<open>\<^verbatim>\<open>str(raw_email).strip().lower() if raw_email else ''\<close>\<close>

definition email_key :: "pyval \<Rightarrow> string" where
  "email_key raw_email = (if truthy raw_email then py_lower (py_strip (py_str raw_email)) else [])"

text \<open>\<^verbatim>\<open>empinfo = str(row[idx_empinfo] or '')\<close>\<close>

definition empinfo_of :: "pyval \<Rightarrow> string" where
  "empinfo_of cell = py_str (or_empty cell)"

text \<open>\<^verbatim>\<open>parts = empinfo.split('-', 1)\<close> and
  \<^verbatim>\<open>parts[1].strip() if len(parts) > 1 else empinfo.strip()\<close>\<close>

definition name_part :: "string \<Rightarrow> string" where
  "name_part empinfo =
     (let parts = py_split1 CHR ''-'' empinfo
      in if length parts > 1 then py_strip (parts ! 1) else py_strip empinfo)"

text \<open>
  One pass through the body of \<^verbatim>\<open>for row in data\<close>, on the loop's state
  (\<^verbatim>\<open>current_level\<close>, \<^verbatim>\<open>results\<close>). The cell of the Missing Time column is read
  only when the row matches.
\<close>

definition process_row ::
  "columns \<Rightarrow> string set \<Rightarrow> string set \<Rightarrow> pyval \<times> entry list \<Rightarrow> pyval list
     \<Rightarrow> exn + (pyval \<times> entry list)" where
  "process_row c mgr_emails mgr_names st row =
     (case st of (current_level, results) \<Rightarrow>
     (case py_index row (idx_level c) of
        Inl e \<Rightarrow> Inl e
      | Inr lvl_cell \<Rightarrow>
          if is_group_row lvl_cell then Inr (lvl_cell, results)
          else
     (case py_index row (idx_email c) of
        Inl e \<Rightarrow> Inl e
      | Inr raw_email \<Rightarrow>
     (case py_index row (idx_empinfo c) of
        Inl e \<Rightarrow> Inl e
      | Inr info_cell \<Rightarrow>
          if email_key raw_email \<in> mgr_emails
             \<or> py_lower (name_part (empinfo_of info_cell)) \<in> mgr_names
          then
            (case py_index row (idx_missing c) of
               Inl e \<Rightarrow> Inl e
             | Inr missing \<Rightarrow>
                 Inr (current_level,
                      results @ [\<lparr>Level = current_level,
                                  Name = name_part (empinfo_of info_cell),
                                  Email_ID = raw_email,
                                  Missing_Time = missing\<rparr>]))
          else Inr (current_level, results)))))"

fun process_rows ::
  "columns \<Rightarrow> string set \<Rightarrow> string set \<Rightarrow> pyval \<times> entry list \<Rightarrow> pyval list list
     \<Rightarrow> exn + (pyval \<times> entry list)" where
  "process_rows c E N st [] = Inr st"
| "process_rows c E N st (row # rows) =
     (case process_row c E N st row of
        Inl e \<Rightarrow> Inl e
      | Inr st' \<Rightarrow> process_rows c E N st' rows)"

text \<open>\<^verbatim>\<open>results = []\<close> and \<^verbatim>\<open>current_level = None\<close>\<close>

definition initial_state :: "pyval \<times> entry list" where
  "initial_state = (PNone, [])"

section \<open>The view function\<close>

text \<open>
  What \<^verbatim>\<open>upload\<close> returns from step 5 on: one of the three messages with status
  400, or the rendered result page (status 200). An exception that leaves the function is
  the left summand.
\<close>

datatype body = HeaderNotFound | ColumnNotFound | RosterHeaderNotFound | ResultPage "entry list"

definition upload :: "pyval list list \<Rightarrow> pyval list list \<Rightarrow> exn + (body \<times> nat)" where
  "upload all_rows mgr_rows =
     (case find_header 0 all_rows of
        Inl e \<Rightarrow> Inl e
      | Inr None \<Rightarrow> Inr (HeaderNotFound, 400)
      | Inr (Some (header_idx, headers)) \<Rightarrow>
     (let data = drop (header_idx + 1) all_rows in
     (case locate_columns headers of
        None \<Rightarrow> Inr (ColumnNotFound, 400)
      | Some c \<Rightarrow>
     (case find_roster_header mgr_rows of
        Inl e \<Rightarrow> Inl e
      | Inr None \<Rightarrow> Inr (RosterHeaderNotFound, 400)
      | Inr (Some (hdr2, mgr_data)) \<Rightarrow>
     (case build_lookup_sets hdr2 mgr_data of
        Inl e \<Rightarrow> Inl e
      | Inr (mgr_emails, mgr_names) \<Rightarrow>
     (case process_rows c mgr_emails mgr_names initial_state data of
        Inl e \<Rightarrow> Inl e
      | Inr (current_level, results) \<Rightarrow> Inr (ResultPage results, 200)))))))"

section \<open>Vocabulary of the properties\<close>

text \<open>
  \<open>leftmost P xs i\<close>: position \<open>i\<close> holds the first element of \<open>xs\<close> that
  satisfies \<open>P\<close>.
\<close>

definition leftmost :: "('a \<Rightarrow> bool) \<Rightarrow> 'a list \<Rightarrow> nat \<Rightarrow> bool" where
  "leftmost P xs i = (i < length xs \<and> P (xs ! i) \<and> \<not> list_ex P (take i xs))"

text \<open>
  A cell on which \<^verbatim>\<open>(v or '').strip()\<close> is defined: a \<^verbatim>\<open>str\<close>, or any
  object that is false (\<^verbatim>\<open>None\<close>, \<^verbatim>\<open>0\<close>, \<^verbatim>\<open>False\<close>).
\<close>

fun is_str :: "pyval \<Rightarrow> bool" where
  "is_str (PStr s) = True"
| "is_str v = False"

definition text_cell :: "pyval \<Rightarrow> bool" where
  "text_cell v = is_str (or_empty v)"

text \<open>
  A row that a header scan reads and leaves behind: every cell has a text and the texts do
  not make a header row. The roster scan has the single detector \<open>is_email\<close>.
\<close>

definition passed_over :: "pyval list \<Rightarrow> bool" where
  "passed_over row = (case row_vals row of Inl e \<Rightarrow> False | Inr vals \<Rightarrow> \<not> is_header_row vals)"

definition roster_passed_over :: "pyval list \<Rightarrow> bool" where
  "roster_passed_over row =
     (case row_vals row of Inl e \<Rightarrow> False | Inr vals \<Rightarrow> \<not> list_ex is_email vals)"

text \<open>
  The normalised values of column \<open>i\<close> over the rows whose cell there passes \<open>keep\<close>.
  The specification keeps the non-empty cells: \<open>nonempty_cell\<close> follows its data model,
  in which a cell is a string, a number or empty.
\<close>

definition keys_of :: "(pyval \<Rightarrow> bool) \<Rightarrow> nat \<Rightarrow> pyval list list \<Rightarrow> string set" where
  "keys_of keep i rows = set (map (\<lambda>r. norm_key (r ! i)) (filter (\<lambda>r. keep (r ! i)) rows))"


text \<open>The match filter of step 8 on one data row, and the entry a matching row gives.\<close>

definition matches :: "columns \<Rightarrow> string set \<Rightarrow> string set \<Rightarrow> pyval list \<Rightarrow> bool" where
  "matches c E N row =
     (\<not> is_group_row (row ! idx_level c) \<and>
      (email_key (row ! idx_email c) \<in> E
       \<or> py_lower (name_part (empinfo_of (row ! idx_empinfo c))) \<in> N))"

definition entry_of :: "columns \<Rightarrow> pyval \<Rightarrow> pyval list \<Rightarrow> entry" where
  "entry_of c lvl row =
     \<lparr>Level = lvl, Name = name_part (empinfo_of (row ! idx_empinfo c)),
      Email_ID = row ! idx_email c, Missing_Time = row ! idx_missing c\<rparr>"

text \<open>
  The value of \<^verbatim>\<open>current_level\<close> on reaching each row: the raw Level cell of the
  last group row before it, or the starting value.
\<close>

fun carried :: "columns \<Rightarrow> pyval \<Rightarrow> pyval list list \<Rightarrow> pyval list" where
  "carried c cur [] = []"
| "carried c cur (row # rows) =
     cur # carried c (if is_group_row (row ! idx_level c) then row ! idx_level c else cur) rows"

text \<open>A cell holding a string of whitespace only: true for Python, empty once trimmed.\<close>

definition blank_text :: "pyval \<Rightarrow> bool" where
  "blank_text v = (case v of PStr s \<Rightarrow> s \<noteq> [] \<and> list_all py_isspace s | _ \<Rightarrow> False)"

section \<open>Strings and indices\<close>

lemma py_in_sublist: "py_in sub s = sublist sub s"
  by (induction s) (auto simp: sublist_Cons_right)

lemma first_index_Some_iff: "first_index P xs = Some i \<longleftrightarrow> leftmost P xs i"
proof (induction xs arbitrary: i)
  case Nil
  show ?case by (simp add: leftmost_def)
next
  case (Cons x xs)
  show ?case
  proof (cases "P x")
    case True
    then show ?thesis by (cases i) (auto simp: leftmost_def)
  next
    case False
    then show ?thesis using Cons.IH by (cases i) (auto simp: leftmost_def)
  qed
qed

lemma first_index_None_iff: "first_index P xs = None \<longleftrightarrow> \<not> list_ex P xs"
  by (induction xs) auto

lemma py_split1_no_sep: "sep \<notin> set s \<Longrightarrow> py_split1 sep s = [s]"
proof -
  assume "sep \<notin> set s"
  then have "dropWhile (\<lambda>c. c \<noteq> sep) s = []" by (induction s) auto
  then show ?thesis unfolding py_split1_def by (simp only: list.case)
qed

lemma py_split1_sep: "sep \<notin> set a \<Longrightarrow> py_split1 sep (a @ sep # b) = [a, b]"
proof -
  assume h: "sep \<notin> set a"
  then have d: "dropWhile (\<lambda>c. c \<noteq> sep) (a @ sep # b) = sep # b"
    by (induction a) auto
  from h have t: "takeWhile (\<lambda>c. c \<noteq> sep) (a @ sep # b) = a"
    by (induction a) auto
  show ?thesis by (simp add: py_split1_def d t)
qed

section \<open>One data row\<close>

lemma process_row_appended:
  assumes "process_row c E N (cur, res) row = Inr (cur', res @ [e])"
  shows "e = entry_of c cur row \<and> cur' = cur \<and> matches c E N row"
  using assms
  by (auto simp: process_row_def py_index_def entry_of_def matches_def
           split: if_splits sum.splits)

section \<open>Name derivation\<close>

text \<open>
  C4. The EmployeeInfo text is split at its first hyphen. Without a hyphen the name is the
  whole text, trimmed; with one, it is the trimmed text after the first hyphen. So
  "12345 - Jane Doe" gives "Jane Doe" and "JaneDoe" gives "JaneDoe". An emitted entry
  carries this name in its original case, and the key looked up in the roster's name set
  is its lowercased form.
\<close>

theorem name_derivation:
  "(CHR ''-'' \<notin> set s \<longrightarrow> name_part s = py_strip s) \<and>
   (CHR ''-'' \<notin> set a \<longrightarrow> name_part (a @ CHR ''-'' # b) = py_strip b) \<and>
   name_part ''12345 - Jane Doe'' = ''Jane Doe'' \<and>
   name_part ''JaneDoe'' = ''JaneDoe'' \<and>
   (process_row c E N (cur, res) row = Inr (cur', res @ [e]) \<longrightarrow>
      Name e = name_part (empinfo_of (row ! idx_empinfo c)) \<and>
      (email_key (Email_ID e) \<in> E \<or> py_lower (Name e) \<in> N))"
proof -
  have 1: "CHR ''-'' \<notin> set s \<longrightarrow> name_part s = py_strip s"
    by (simp add: name_part_def py_split1_no_sep)
  have 2: "CHR ''-'' \<notin> set a \<longrightarrow> name_part (a @ CHR ''-'' # b) = py_strip b"
    by (simp add: name_part_def py_split1_sep)
  have 3: "name_part ''12345 - Jane Doe'' = ''Jane Doe''"
    by code_simp
  have 4: "name_part ''JaneDoe'' = ''JaneDoe''"
    by code_simp
  have 5: "process_row c E N (cur, res) row = Inr (cur', res @ [e]) \<longrightarrow>
      Name e = name_part (empinfo_of (row ! idx_empinfo c)) \<and>
      (email_key (Email_ID e) \<in> E \<or> py_lower (Name e) \<in> N)"
  proof
    assume "process_row c E N (cur, res) row = Inr (cur', res @ [e])"
    from process_row_appended [OF this]
    show "Name e = name_part (empinfo_of (row ! idx_empinfo c)) \<and>
      (email_key (Email_ID e) \<in> E \<or> py_lower (Name e) \<in> N)"
      by (simp add: entry_of_def matches_def)
  qed
  from 1 2 3 4 5 show ?thesis by blast
qed

theorem name_derivation_witness:
  "CHR ''-'' \<notin> set ''Jane Doe'' \<and>
   name_part ''Jane Doe'' = py_strip ''Jane Doe'' \<and>
   CHR ''-'' \<notin> set ''12345 '' \<and>
   name_part (''12345 '' @ CHR ''-'' # '' Jane-Ann Doe '') = ''Jane-Ann Doe'' \<and>
   process_row \<lparr>idx_level = 0, idx_empinfo = 1, idx_email = 2, idx_missing = 3\<rparr>
     {} {''jane doe''} (PNone, [])
     [PNone, PStr ''7 - Jane Doe'', PNone, PInt 5]
     = Inr (PNone, [] @ [\<lparr>Level = PNone, Name = ''Jane Doe'', Email_ID = PNone,
                            Missing_Time = PInt 5\<rparr>]) \<and>
   py_lower (Name \<lparr>Level = PNone, Name = ''Jane Doe'', Email_ID = PNone,
                   Missing_Time = PInt 5\<rparr>) \<in> {''jane doe''}"
proof -
  have h1: "CHR ''-'' \<notin> set ''Jane Doe''" by simp
  have h2: "CHR ''-'' \<notin> set ''12345 ''" by simp
  have h3: "process_row \<lparr>idx_level = 0, idx_empinfo = 1, idx_email = 2, idx_missing = 3\<rparr>
     {} {''jane doe''} (PNone, [])
     [PNone, PStr ''7 - Jane Doe'', PNone, PInt 5]
     = Inr (PNone, [] @ [\<lparr>Level = PNone, Name = ''Jane Doe'', Email_ID = PNone,
                            Missing_Time = PInt 5\<rparr>])"
    by code_simp
  have s: "py_strip '' Jane-Ann Doe '' = ''Jane-Ann Doe''" by code_simp
  note t = name_derivation [of "''Jane Doe''" "''12345 ''" "'' Jane-Ann Doe ''"
      "\<lparr>idx_level = 0, idx_empinfo = 1, idx_email = 2, idx_missing = 3\<rparr>"
      "{}" "{''jane doe''}" PNone "[]" "[PNone, PStr ''7 - Jane Doe'', PNone, PInt 5]" PNone
      "\<lparr>Level = PNone, Name = ''Jane Doe'', Email_ID = PNone, Missing_Time = PInt 5\<rparr>"]
  from t h1 have a: "name_part ''Jane Doe'' = py_strip ''Jane Doe''" by blast
  from t h2 s have b: "name_part (''12345 '' @ CHR ''-'' # '' Jane-Ann Doe '') = ''Jane-Ann Doe''"
    by simp
  from t h3 have c: "py_lower (Name \<lparr>Level = PNone, Name = ''Jane Doe'', Email_ID = PNone,
                   Missing_Time = PInt 5\<rparr>) \<in> {''jane doe''}"
    by (simp add: email_key_def)
  from h1 h2 h3 a b c show ?thesis by blast
qed

section \<open>Column resolution\<close>

lemma leftmost_exists: "list_ex P xs \<Longrightarrow> \<exists>i. first_index P xs = Some i \<and> leftmost P xs i"
  using first_index_None_iff [of P xs] first_index_Some_iff [of P xs]
  by (cases "first_index P xs") auto

lemma find_header_is_header_row:
  "find_header k rows = Inr (Some (i, headers)) \<Longrightarrow> is_header_row headers"
  by (induction rows arbitrary: k) (auto split: sum.splits if_splits)

lemma locate_columns_Some:
  assumes "is_header_row headers"
  shows "\<exists>c. locate_columns headers = Some c \<and>
     leftmost is_level headers (idx_level c) \<and> leftmost is_empname headers (idx_empinfo c) \<and>
     leftmost is_email headers (idx_email c) \<and> leftmost is_missing headers (idx_missing c)"
proof -
  from assms obtain l n e m where
    "first_index is_level headers = Some l" "leftmost is_level headers l"
    "first_index is_empname headers = Some n" "leftmost is_empname headers n"
    "first_index is_email headers = Some e" "leftmost is_email headers e"
    "first_index is_missing headers = Some m" "leftmost is_missing headers m"
    unfolding is_header_row_def by (blast dest: leftmost_exists)
  then show ?thesis by (simp add: locate_columns_def)
qed

text \<open>
  C6. A header row that satisfies all four detectors always resolves: each logical field
  gets the index of the leftmost cell that satisfies its detector. The scan only returns
  rows that satisfy the four detectors, so the view never answers with the ColumnNotFound
  message.
\<close>

theorem columns_always_resolve:
  assumes "is_header_row headers"
  shows "(\<exists>c. locate_columns headers = Some c \<and>
            leftmost is_level headers (idx_level c) \<and>
            leftmost is_empname headers (idx_empinfo c) \<and>
            leftmost is_email headers (idx_email c) \<and>
            leftmost is_missing headers (idx_missing c)) \<and>
         upload all_rows mgr_rows \<noteq> Inr (ColumnNotFound, status)"
proof
  show "\<exists>c. locate_columns headers = Some c \<and>
            leftmost is_level headers (idx_level c) \<and>
            leftmost is_empname headers (idx_empinfo c) \<and>
            leftmost is_email headers (idx_email c) \<and>
            leftmost is_missing headers (idx_missing c)"
    using assms by (rule locate_columns_Some)
next
  show "upload all_rows mgr_rows \<noteq> Inr (ColumnNotFound, status)"
  proof (cases "find_header 0 all_rows")
    case (Inl e)
    then show ?thesis by (simp add: upload_def)
  next
    case (Inr r)
    show ?thesis
    proof (cases r)
      case None
      with Inr show ?thesis by (simp add: upload_def)
    next
      case (Some p)
      obtain i hs where p: "p = (i, hs)" by (cases p)
      with Inr Some have "is_header_row hs" by (auto dest: find_header_is_header_row)
      then obtain c where "locate_columns hs = Some c" using locate_columns_Some by blast
      with Inr Some p show ?thesis
        by (auto simp: upload_def Let_def split: sum.splits option.splits prod.splits)
    qed
  qed
qed

theorem columns_always_resolve_witness:
  "is_header_row [''Level'', ''Emp ID - Name'', ''Email ID'', ''Sum of Missing Time''] \<and>
   (\<exists>c. locate_columns [''Level'', ''Emp ID - Name'', ''Email ID'', ''Sum of Missing Time'']
           = Some c \<and>
        leftmost is_missing [''Level'', ''Emp ID - Name'', ''Email ID'', ''Sum of Missing Time'']
           (idx_missing c)) \<and>
   locate_columns [''Level'', ''Emp ID - Name'', ''Email ID'', ''Sum of Missing Time'']
     = Some \<lparr>idx_level = 0, idx_empinfo = 1, idx_email = 2, idx_missing = 3\<rparr> \<and>
   locate_columns [''Total Level'', ''Email of Emp Name'', ''Sum of Missing Time'']
     = Some \<lparr>idx_level = 0, idx_empinfo = 1, idx_email = 1, idx_missing = 2\<rparr> \<and>
   upload [[PStr ''Level'', PStr ''Emp ID - Name'', PStr ''Email ID'',
            PStr ''Sum of Missing Time'']] [] \<noteq> Inr (ColumnNotFound, 400)"
proof -
  have h: "is_header_row [''Level'', ''Emp ID - Name'', ''Email ID'', ''Sum of Missing Time'']"
    by code_simp
  have l: "locate_columns [''Level'', ''Emp ID - Name'', ''Email ID'', ''Sum of Missing Time'']
     = Some \<lparr>idx_level = 0, idx_empinfo = 1, idx_email = 2, idx_missing = 3\<rparr>"
    by code_simp
  have l': "locate_columns [''Total Level'', ''Email of Emp Name'', ''Sum of Missing Time'']
     = Some \<lparr>idx_level = 0, idx_empinfo = 1, idx_email = 1, idx_missing = 2\<rparr>"
    by code_simp
  from columns_always_resolve [OF h, of
      "[[PStr ''Level'', PStr ''Emp ID - Name'', PStr ''Email ID'', PStr ''Sum of Missing Time'']]"
      "[]" 400] h l l'
  show ?thesis by blast
qed

section \<open>The two header scans\<close>

lemma text_cell_iff: "text_cell v \<longleftrightarrow> is_str v \<or> \<not> truthy v"
  by (cases v) (auto simp: text_cell_def or_empty_def)

lemma strip_cell_Inl: "strip_cell v = Inl e \<longleftrightarrow> e = AttributeError \<and> \<not> text_cell v"
  by (cases "or_empty v") (auto simp: strip_cell_def text_cell_def)

lemma row_vals_Inl: "row_vals row = Inl e \<longleftrightarrow> e = AttributeError \<and> \<not> list_all text_cell row"
proof (induction row)
  case Nil
  show ?case by simp
next
  case (Cons v vs)
  show ?case
  proof (cases "strip_cell v")
    case (Inl e')
    then show ?thesis using strip_cell_Inl [of v e'] by auto
  next
    case (Inr s)
    then have "text_cell v" using strip_cell_Inl [of v AttributeError] by auto
    with Inr Cons.IH show ?thesis by (auto split: sum.splits)
  qed
qed

lemma row_vals_Inr: "(\<exists>vals. row_vals row = Inr vals) \<longleftrightarrow> list_all text_cell row"
proof (cases "row_vals row")
  case (Inl e)
  then show ?thesis using row_vals_Inl [of row e] by simp
next
  case (Inr vals)
  then show ?thesis using row_vals_Inl [of row AttributeError] by simp
qed

lemma ex_nat_split: "(\<exists>j::nat. P j) \<longleftrightarrow> P 0 \<or> (\<exists>j. P (Suc j))"
  by (metis not0_implies_Suc)

lemma find_header_Some_iff:
  "find_header k rows = Inr (Some (i, vals)) \<longleftrightarrow>
     (\<exists>j. i = k + j \<and> j < length rows \<and> row_vals (rows ! j) = Inr vals \<and>
          is_header_row vals \<and> list_all passed_over (take j rows))"
proof (induction rows arbitrary: k)
  case Nil
  show ?case by simp
next
  case (Cons row rows)
  show ?case
  proof (cases "row_vals row")
    case (Inl e)
    then have po: "\<not> passed_over row" by (simp add: passed_over_def)
    from Inl show ?thesis
      by (subst ex_nat_split) (simp add: po)
  next
    case (Inr vs)
    then have po: "passed_over row = (\<not> is_header_row vs)" by (simp add: passed_over_def)
    from Inr show ?thesis
      by (subst ex_nat_split) (auto simp: po Cons.IH)
  qed
qed

lemma find_header_None_iff: "find_header k rows = Inr None \<longleftrightarrow> list_all passed_over rows"
  by (induction rows arbitrary: k) (auto simp: passed_over_def split: sum.splits)

lemma find_header_Inl_iff:
  "find_header k rows = Inl e \<longleftrightarrow>
     (\<exists>j. j < length rows \<and> row_vals (rows ! j) = Inl e \<and> list_all passed_over (take j rows))"
proof (induction rows arbitrary: k)
  case Nil
  show ?case by simp
next
  case (Cons row rows)
  show ?case
  proof (cases "row_vals row")
    case (Inl e')
    then have po: "\<not> passed_over row" by (simp add: passed_over_def)
    from Inl show ?thesis
      by (subst ex_nat_split) (auto simp: po)
  next
    case (Inr vs)
    then have po: "passed_over row = (\<not> is_header_row vs)" by (simp add: passed_over_def)
    from Inr show ?thesis
      by (subst ex_nat_split) (auto simp: po Cons.IH)
  qed
qed

lemma find_roster_header_Some_iff:
  "find_roster_header rows = Inr (Some (vals, rest)) \<longleftrightarrow>
     (\<exists>j. j < length rows \<and> row_vals (rows ! j) = Inr vals \<and> list_ex is_email vals \<and>
          rest = drop (Suc j) rows \<and> list_all roster_passed_over (take j rows))"
proof (induction rows)
  case Nil
  show ?case by simp
next
  case (Cons row rows)
  show ?case
  proof (cases "row_vals row")
    case (Inl e)
    then have po: "\<not> roster_passed_over row" by (simp add: roster_passed_over_def)
    from Inl show ?thesis
      by (subst ex_nat_split) (simp add: po)
  next
    case (Inr vs)
    then have po: "roster_passed_over row = (\<not> list_ex is_email vs)" by (simp add: roster_passed_over_def)
    from Inr show ?thesis
      by (subst ex_nat_split) (auto simp: po Cons.IH)
  qed
qed

lemma find_roster_header_None_iff:
  "find_roster_header rows = Inr None \<longleftrightarrow> list_all roster_passed_over rows"
  by (induction rows) (auto simp: roster_passed_over_def split: sum.splits)

lemma find_roster_header_Inl_iff:
  "find_roster_header rows = Inl e \<longleftrightarrow>
     (\<exists>j. j < length rows \<and> row_vals (rows ! j) = Inl e \<and>
          list_all roster_passed_over (take j rows))"
proof (induction rows)
  case Nil
  show ?case by simp
next
  case (Cons row rows)
  show ?case
  proof (cases "row_vals row")
    case (Inl e')
    then have po: "\<not> roster_passed_over row" by (simp add: roster_passed_over_def)
    from Inl show ?thesis
      by (subst ex_nat_split) (auto simp: po)
  next
    case (Inr vs)
    then have po: "roster_passed_over row = (\<not> list_ex is_email vs)" by (simp add: roster_passed_over_def)
    from Inr show ?thesis
      by (subst ex_nat_split) (auto simp: po Cons.IH)
  qed
qed

lemma not_text_row:
  "\<not> list_all text_cell row \<longleftrightarrow> list_ex (\<lambda>v. truthy v \<and> \<not> is_str v) row"
  by (induction row) (auto simp: text_cell_iff)

lemma upload_after_header:
  assumes "find_header 0 all_rows = Inr (Some (h, headers))"
  shows "\<exists>c. locate_columns headers = Some c \<and>
     upload all_rows mgr_rows =
       (case find_roster_header mgr_rows of
          Inl e \<Rightarrow> Inl e
        | Inr None \<Rightarrow> Inr (RosterHeaderNotFound, 400)
        | Inr (Some (hdr2, mgr_data)) \<Rightarrow>
            (case build_lookup_sets hdr2 mgr_data of
               Inl e \<Rightarrow> Inl e
             | Inr (E, N) \<Rightarrow>
                 (case process_rows c E N initial_state (drop (Suc h) all_rows) of
                    Inl e \<Rightarrow> Inl e
                  | Inr (cur, results) \<Rightarrow> Inr (ResultPage results, 200))))"
proof -
  from assms have "is_header_row headers" by (rule find_header_is_header_row)
  then obtain c where c: "locate_columns headers = Some c"
    using locate_columns_Some by blast
  show ?thesis
    by (rule exI [of _ c]) (simp add: upload_def assms c)
qed

lemma upload_HeaderNotFound_iff:
  "upload all_rows mgr_rows = Inr (HeaderNotFound, status) \<longleftrightarrow>
     find_header 0 all_rows = Inr None \<and> status = 400"
proof (cases "find_header 0 all_rows")
  case (Inl e)
  then show ?thesis by (simp add: upload_def)
next
  case (Inr r)
  show ?thesis
  proof (cases r)
    case None
    with Inr show ?thesis by (auto simp: upload_def)
  next
    case (Some p)
    obtain h hs where "p = (h, hs)" by (cases p)
    with Inr Some have f: "find_header 0 all_rows = Inr (Some (h, hs))" by simp
    from upload_after_header [OF f, of mgr_rows] obtain c
      where c: "locate_columns hs = Some c"
        and u: "upload all_rows mgr_rows =
          (case find_roster_header mgr_rows of
             Inl e \<Rightarrow> Inl e
           | Inr None \<Rightarrow> Inr (RosterHeaderNotFound, 400)
           | Inr (Some (hdr2, mgr_data)) \<Rightarrow>
               (case build_lookup_sets hdr2 mgr_data of
                  Inl e \<Rightarrow> Inl e
                | Inr (E, N) \<Rightarrow>
                    (case process_rows c E N initial_state (drop (Suc h) all_rows) of
                       Inl e \<Rightarrow> Inl e
                     | Inr (cur, results) \<Rightarrow> Inr (ResultPage results, 200))))"
      by blast
    show ?thesis unfolding u using f c
      by (auto split: sum.splits option.splits)
  qed
qed

lemma upload_RosterHeaderNotFound_iff:
  "upload all_rows mgr_rows = Inr (RosterHeaderNotFound, status) \<longleftrightarrow>
     (\<exists>h headers. find_header 0 all_rows = Inr (Some (h, headers))) \<and>
     find_roster_header mgr_rows = Inr None \<and> status = 400"
proof (cases "find_header 0 all_rows")
  case (Inl e)
  then show ?thesis by (simp add: upload_def)
next
  case (Inr r)
  show ?thesis
  proof (cases r)
    case None
    with Inr show ?thesis by (auto simp: upload_def)
  next
    case (Some p)
    obtain h hs where "p = (h, hs)" by (cases p)
    with Inr Some have f: "find_header 0 all_rows = Inr (Some (h, hs))" by simp
    from upload_after_header [OF f, of mgr_rows] obtain c
      where c: "locate_columns hs = Some c"
        and u: "upload all_rows mgr_rows =
          (case find_roster_header mgr_rows of
             Inl e \<Rightarrow> Inl e
           | Inr None \<Rightarrow> Inr (RosterHeaderNotFound, 400)
           | Inr (Some (hdr2, mgr_data)) \<Rightarrow>
               (case build_lookup_sets hdr2 mgr_data of
                  Inl e \<Rightarrow> Inl e
                | Inr (E, N) \<Rightarrow>
                    (case process_rows c E N initial_state (drop (Suc h) all_rows) of
                       Inl e \<Rightarrow> Inl e
                     | Inr (cur, results) \<Rightarrow> Inr (ResultPage results, 200))))"
      by blast
    show ?thesis unfolding u using f c
      by (auto split: sum.splits option.splits)
  qed
qed

lemma upload_ResultPage:
  assumes "upload all_rows mgr_rows = Inr (ResultPage results, status)"
  shows "\<exists>h headers c hdr2 mgr_data E N cur.
     find_header 0 all_rows = Inr (Some (h, headers)) \<and>
     locate_columns headers = Some c \<and>
     find_roster_header mgr_rows = Inr (Some (hdr2, mgr_data)) \<and>
     build_lookup_sets hdr2 mgr_data = Inr (E, N) \<and>
     process_rows c E N initial_state (drop (Suc h) all_rows) = Inr (cur, results) \<and>
     status = 200"
proof (cases "find_header 0 all_rows")
  case (Inl e)
  with assms show ?thesis by (simp add: upload_def)
next
  case (Inr r)
  show ?thesis
  proof (cases r)
    case None
    with Inr assms show ?thesis by (auto simp: upload_def)
  next
    case (Some p)
    obtain h hs where "p = (h, hs)" by (cases p)
    with Inr Some have f: "find_header 0 all_rows = Inr (Some (h, hs))" by simp
    from upload_after_header [OF f, of mgr_rows] obtain c
      where c: "locate_columns hs = Some c"
        and u: "upload all_rows mgr_rows =
          (case find_roster_header mgr_rows of
             Inl e \<Rightarrow> Inl e
           | Inr None \<Rightarrow> Inr (RosterHeaderNotFound, 400)
           | Inr (Some (hdr2, mgr_data)) \<Rightarrow>
               (case build_lookup_sets hdr2 mgr_data of
                  Inl e \<Rightarrow> Inl e
                | Inr (E, N) \<Rightarrow>
                    (case process_rows c E N initial_state (drop (Suc h) all_rows) of
                       Inl e \<Rightarrow> Inl e
                     | Inr (cur, results) \<Rightarrow> Inr (ResultPage results, 200))))"
      by blast
    from assms show ?thesis unfolding u using f c
      by (auto split: sum.splits option.splits)
  qed
qed

section \<open>The monthly header locator\<close>

text \<open>
  C2 at its failing input. The second row of the sheet is the first whose cell texts satisfy
  the four detectors, and the title row above it holds the number 2024. The scan applies
  \<^verbatim>\<open>strip\<close> to that number at line 88 and raises; nothing catches the exception, so
  the view returns neither the header index nor any answer. On the sheet whose only row is
  that number no row qualifies, and the view raises likewise, not answering with
  HeaderNotFound and status 400. On a sheet of strings and empty cells the scan does return
  the first qualifying row.
\<close>

theorem numeric_title_cell_breaks_header_scan:
  "row_vals [PStr ''Level'', PStr ''Emp ID - Name'', PStr ''Email ID'', PStr ''Sum of Missing Time'']
     = Inr [''Level'', ''Emp ID - Name'', ''Email ID'', ''Sum of Missing Time''] \<and>
   is_header_row [''Level'', ''Emp ID - Name'', ''Email ID'', ''Sum of Missing Time''] \<and>
   find_header 0
     [[PStr ''Report'', PNone],
      [PStr ''Level'', PStr ''Emp ID - Name'', PStr ''Email ID'', PStr ''Sum of Missing Time'']]
     = Inr (Some (1, [''Level'', ''Emp ID - Name'', ''Email ID'', ''Sum of Missing Time''])) \<and>
   find_header 0
     [[PStr ''Report'', PInt 2024],
      [PStr ''Level'', PStr ''Emp ID - Name'', PStr ''Email ID'', PStr ''Sum of Missing Time'']]
     = Inl AttributeError \<and>
   upload
     [[PStr ''Report'', PInt 2024],
      [PStr ''Level'', PStr ''Emp ID - Name'', PStr ''Email ID'', PStr ''Sum of Missing Time'']]
     [[PStr ''Email''], [PStr ''a@x.com'']]
     = Inl AttributeError \<and>
   upload [[PInt 2024]] [[PStr ''Email''], [PStr ''a@x.com'']] = Inl AttributeError \<and>
   upload [[PStr ''2024'']] [[PStr ''Email''], [PStr ''a@x.com'']] = Inr (HeaderNotFound, 400)"
  by code_simp

section \<open>The roster header locator\<close>

text \<open>
  C7 at its failing input. Below a monthly sheet whose header is found, the roster row
  Name, Email, 2024 has a cell containing "email", and the roster whose only row is the
  number 5 has none. On both the scan applies \<^verbatim>\<open>strip\<close> to the number at line 127
  and raises; nothing catches the exception, so the view neither takes the row as the
  roster header nor answers with RosterHeaderNotFound and status 400. On rosters of strings
  the scan does both.
\<close>

theorem numeric_roster_cell_breaks_roster_scan:
  "find_header 0
     [[PStr ''Level'', PStr ''Emp ID - Name'', PStr ''Email ID'', PStr ''Sum of Missing Time'']]
     = Inr (Some (0, [''Level'', ''Emp ID - Name'', ''Email ID'', ''Sum of Missing Time''])) \<and>
   list_ex is_email [''Name'', ''Email''] \<and>
   find_roster_header [[PStr ''Name'', PStr ''Email'']] = Inr (Some ([''Name'', ''Email''], [])) \<and>
   find_roster_header [[PStr ''Name'', PStr ''Email'', PInt 2024]] = Inl AttributeError \<and>
   upload
     [[PStr ''Level'', PStr ''Emp ID - Name'', PStr ''Email ID'', PStr ''Sum of Missing Time'']]
     [[PStr ''Name'', PStr ''Email'', PInt 2024]]
     = Inl AttributeError \<and>
   find_roster_header [[PInt 5]] = Inl AttributeError \<and>
   upload
     [[PStr ''Level'', PStr ''Emp ID - Name'', PStr ''Email ID'', PStr ''Sum of Missing Time'']]
     [[PInt 5]]
     = Inl AttributeError \<and>
   upload
     [[PStr ''Level'', PStr ''Emp ID - Name'', PStr ''Email ID'', PStr ''Sum of Missing Time'']]
     [[PStr ''5'']]
     = Inr (RosterHeaderNotFound, 400)"
  by code_simp

section \<open>Where the header scans raise\<close>

lemma find_header_Inl_AttributeError: "find_header k rows = Inl e \<Longrightarrow> e = AttributeError"
  using find_header_Inl_iff [of k rows e] row_vals_Inl by blast

lemma find_roster_header_Inl_AttributeError:
  "find_roster_header rows = Inl e \<Longrightarrow> e = AttributeError"
  using find_roster_header_Inl_iff [of rows e] row_vals_Inl by blast

lemma upload_roster_Inl:
  assumes "find_header 0 all_rows = Inr (Some (h, headers))"
    and "find_roster_header mgr_rows = Inl e"
  shows "upload all_rows mgr_rows = Inl e"
  using upload_after_header [OF assms(1), of mgr_rows] assms(2) by auto

text \<open>
  C10, as the code has it. Either scan raises exactly when some row that it reads (a row with
  no header row above it, so a row up to and including the first header row) holds a cell
  that is true and not a string: a non-zero number or \<^verbatim>\<open>True\<close>. The exception is
  \<^verbatim>\<open>AttributeError\<close>, nothing catches it, and it leaves the view in place of a 400
  answer. Cells that are strings or false objects (\<^verbatim>\<open>None\<close>, the empty string,
  \<^verbatim>\<open>0\<close>, \<^verbatim>\<open>False\<close>) never make a scan raise.
\<close>

theorem header_scans_raise:
  "((\<exists>e. find_header 0 all_rows = Inl e) \<longleftrightarrow>
      (\<exists>j<length all_rows. list_ex (\<lambda>v. truthy v \<and> \<not> is_str v) (all_rows ! j) \<and>
                            list_all passed_over (take j all_rows))) \<and>
   ((\<exists>e. find_roster_header mgr_rows = Inl e) \<longleftrightarrow>
      (\<exists>j<length mgr_rows. list_ex (\<lambda>v. truthy v \<and> \<not> is_str v) (mgr_rows ! j) \<and>
                            list_all roster_passed_over (take j mgr_rows))) \<and>
   (find_header 0 all_rows = Inl e \<longrightarrow>
      e = AttributeError \<and> upload all_rows mgr_rows = Inl AttributeError) \<and>
   (find_header 0 all_rows = Inr (Some (h, headers)) \<and> find_roster_header mgr_rows = Inl e \<longrightarrow>
      e = AttributeError \<and> upload all_rows mgr_rows = Inl AttributeError)"
proof (intro conjI)
  show "(\<exists>e. find_header 0 all_rows = Inl e) \<longleftrightarrow>
      (\<exists>j<length all_rows. list_ex (\<lambda>v. truthy v \<and> \<not> is_str v) (all_rows ! j) \<and>
                            list_all passed_over (take j all_rows))"
    by (auto simp: find_header_Inl_iff row_vals_Inl not_text_row)
next
  show "(\<exists>e. find_roster_header mgr_rows = Inl e) \<longleftrightarrow>
      (\<exists>j<length mgr_rows. list_ex (\<lambda>v. truthy v \<and> \<not> is_str v) (mgr_rows ! j) \<and>
                            list_all roster_passed_over (take j mgr_rows))"
    by (auto simp: find_roster_header_Inl_iff row_vals_Inl not_text_row)
next
  show "find_header 0 all_rows = Inl e \<longrightarrow>
      e = AttributeError \<and> upload all_rows mgr_rows = Inl AttributeError"
    by (auto dest: find_header_Inl_AttributeError simp: upload_def)
next
  show "find_header 0 all_rows = Inr (Some (h, headers)) \<and> find_roster_header mgr_rows = Inl e \<longrightarrow>
      e = AttributeError \<and> upload all_rows mgr_rows = Inl AttributeError"
    using upload_roster_Inl find_roster_header_Inl_AttributeError by blast
qed

theorem header_scans_raise_witness:
  "list_ex (\<lambda>v. truthy v \<and> \<not> is_str v) ([[PStr ''Report''], [PNone, PInt 7]] ! 1) \<and>
   list_all passed_over (take 1 [[PStr ''Report''], [PNone, PInt 7]]) \<and>
   find_header 0 [[PStr ''Report''], [PNone, PInt 7]] = Inl AttributeError \<and>
   upload [[PStr ''Report''], [PNone, PInt 7]] [] = Inl AttributeError \<and>
   find_header 0
     [[PStr ''Level'', PStr ''Emp ID - Name'', PStr ''Email ID'', PStr ''Sum of Missing Time'']]
     = Inr (Some (0, [''Level'', ''Emp ID - Name'', ''Email ID'', ''Sum of Missing Time''])) \<and>
   find_roster_header [[PBool True]] = Inl AttributeError \<and>
   upload [[PStr ''Level'', PStr ''Emp ID - Name'', PStr ''Email ID'', PStr ''Sum of Missing Time'']]
          [[PBool True]] = Inl AttributeError"
proof -
  let ?A = "[[PStr ''Report''], [PNone, PInt 7]]"
  let ?M = "[[PStr ''Level'', PStr ''Emp ID - Name'', PStr ''Email ID'', PStr ''Sum of Missing Time'']]"
  let ?H = "[''Level'', ''Emp ID - Name'', ''Email ID'', ''Sum of Missing Time'']"
  have a: "list_ex (\<lambda>v. truthy v \<and> \<not> is_str v) (?A ! 1)" by code_simp
  have b: "list_all passed_over (take 1 ?A)" by code_simp
  have c: "(1::nat) < length ?A" by simp
  have d: "find_header 0 ?M = Inr (Some (0, ?H))" by code_simp
  have r: "find_roster_header [[PBool True]] = Inl AttributeError" by code_simp
  note t = header_scans_raise [of ?A "[]" _ 0 ?H]
  from t a b c obtain e where e: "find_header 0 ?A = Inl e" by blast
  from header_scans_raise [of ?A "[]" e 0 ?H] e
  have 1: "find_header 0 ?A = Inl AttributeError" and 2: "upload ?A [] = Inl AttributeError"
    by auto
  from header_scans_raise [of ?M "[[PBool True]]" AttributeError 0 ?H] d r
  have 3: "upload ?M [[PBool True]] = Inl AttributeError" by blast
  from a b 1 2 d r 3 show ?thesis by blast
qed

text \<open>
  C10 as stated fails on cells that are neither strings nor empty but false: the numeric
  cell \<^verbatim>\<open>0\<close> and the cell \<^verbatim>\<open>False\<close> above the header do not make either scan
  raise.
\<close>

theorem header_scans_raise_counterexample:
  "\<not> is_str (PInt 0) \<and> \<not> is_str (PBool False) \<and>
   find_header 0
     [[PInt 0, PBool False],
      [PStr ''Level'', PStr ''Emp ID - Name'', PStr ''Email ID'', PStr ''Sum of Missing Time'']]
     = Inr (Some (1, [''Level'', ''Emp ID - Name'', ''Email ID'', ''Sum of Missing Time''])) \<and>
   find_roster_header [[PInt 0, PBool False], [PStr ''Email'']] = Inr (Some ([''Email''], []))"
  by code_simp

section \<open>The roster lookup sets\<close>


lemma lookup_set_Inl_iff:
  "lookup_set idx rows = Inl e \<longleftrightarrow> e = IndexError \<and> \<not> list_all (\<lambda>r. idx < length r) rows"
  by (induction rows) (auto simp: py_index_def split: sum.splits)




section \<open>The match rule on one data row\<close>

lemma process_row_group:
  assumes "idx_level c < length row" and "is_group_row (row ! idx_level c)"
  shows "process_row c E N (cur, res) row = Inr (row ! idx_level c, res)"
  using assms by (simp add: process_row_def py_index_def)

lemma process_row_Inr:
  assumes "process_row c E N (cur, res) row = Inr (cur', res')"
  shows "(if is_group_row (row ! idx_level c) then cur' = row ! idx_level c \<and> res' = res
          else cur' = cur \<and>
               (if matches c E N row then res' = res @ [entry_of c cur row] else res' = res))"
  using assms
  by (auto simp: process_row_def py_index_def entry_of_def matches_def
           split: if_splits sum.splits)

lemma process_row_total:
  assumes "list_all (\<lambda>i. i < length row) [idx_level c, idx_empinfo c, idx_email c, idx_missing c]"
  shows "\<exists>st'. process_row c E N st row = Inr st'"
  using assms by (cases st) (simp add: process_row_def py_index_def)

text \<open>
  C1, as the code has it. A data row whose Level cell is blank gives a Result Entry if and
  only if its email key is in the roster's email set or its lowercased derived name is in the
  roster's name set; either membership alone is enough. A row whose Level cell is not blank
  is a group row: it gives no entry, whatever its Email and EmployeeInfo cells hold. The
  email key is the trimmed, lowercased string form of the Email cell, and the empty string
  for a cell that Python counts as false. A row that reaches the four columns is always
  processed.
\<close>

theorem match_rule:
  "(process_row c E N (cur, res) row = Inr (cur', res') \<longrightarrow>
      (res' \<noteq> res \<longleftrightarrow>
         \<not> is_group_row (row ! idx_level c) \<and>
         (email_key (row ! idx_email c) \<in> E \<or>
          py_lower (name_part (empinfo_of (row ! idx_empinfo c))) \<in> N)) \<and>
      (res' = res \<or> res' = res @ [entry_of c cur row])) \<and>
   (list_all (\<lambda>i. i < length row) [idx_level c, idx_empinfo c, idx_email c, idx_missing c] \<longrightarrow>
      (\<exists>st'. process_row c E N (cur, res) row = Inr st'))"
proof (intro conjI impI)
  assume a: "process_row c E N (cur, res) row = Inr (cur', res')"
  from process_row_Inr [OF a]
  show "res' \<noteq> res \<longleftrightarrow>
         \<not> is_group_row (row ! idx_level c) \<and>
         (email_key (row ! idx_email c) \<in> E \<or>
          py_lower (name_part (empinfo_of (row ! idx_empinfo c))) \<in> N)"
    by (auto simp: matches_def split: if_splits)
  from process_row_Inr [OF a]
  show "res' = res \<or> res' = res @ [entry_of c cur row]"
    by (auto split: if_splits)
next
  assume "list_all (\<lambda>i. i < length row) [idx_level c, idx_empinfo c, idx_email c, idx_missing c]"
  then show "\<exists>st'. process_row c E N (cur, res) row = Inr st'"
    by (rule process_row_total)
qed

theorem match_rule_witness:
  "process_row \<lparr>idx_level = 0, idx_empinfo = 1, idx_email = 2, idx_missing = 3\<rparr>
     {''a@x.com''} {''bob''} (PStr ''Team A'', [])
     [PStr '' '', PStr ''1 - Jane'', PStr '' A@X.com'', PInt 5]
     = Inr (PStr ''Team A'',
            [\<lparr>Level = PStr ''Team A'', Name = ''Jane'', Email_ID = PStr '' A@X.com'',
              Missing_Time = PInt 5\<rparr>]) \<and>
   \<not> is_group_row (PStr '' '') \<and>
   email_key (PStr '' A@X.com'') \<in> {''a@x.com''} \<and>
   py_lower (name_part (empinfo_of (PStr ''1 - Jane''))) \<notin> {''bob''} \<and>
   (\<exists>st'. process_row \<lparr>idx_level = 0, idx_empinfo = 1, idx_email = 2, idx_missing = 3\<rparr>
          {} {''bob''} (PNone, []) [PNone, PStr ''2 - BOB'', PNone, PNone] = Inr st')"
proof -
  let ?c = "\<lparr>idx_level = 0, idx_empinfo = 1, idx_email = 2, idx_missing = 3\<rparr>"
  let ?row = "[PStr '' '', PStr ''1 - Jane'', PStr '' A@X.com'', PInt 5]"
  let ?e = "\<lparr>Level = PStr ''Team A'', Name = ''Jane'', Email_ID = PStr '' A@X.com'',
              Missing_Time = PInt 5\<rparr>"
  have p: "process_row ?c {''a@x.com''} {''bob''} (PStr ''Team A'', []) ?row
     = Inr (PStr ''Team A'', [?e])"
    by code_simp
  have n: "py_lower (name_part (empinfo_of (PStr ''1 - Jane''))) \<notin> {''bob''}" by code_simp
  have r: "list_all (\<lambda>i. i < length [PNone, PStr ''2 - BOB'', PNone, PNone])
     [idx_level ?c, idx_empinfo ?c, idx_email ?c, idx_missing ?c]"
    by simp
  from match_rule [of ?c "{''a@x.com''}" "{''bob''}" "PStr ''Team A''" "[]" ?row
      "PStr ''Team A''" "[?e]"] p n
  have 1: "\<not> is_group_row (PStr '' '')" and 2: "email_key (PStr '' A@X.com'') \<in> {''a@x.com''}"
    by auto
  from match_rule [of ?c "{}" "{''bob''}" PNone "[]" "[PNone, PStr ''2 - BOB'', PNone, PNone]"] r
  have 3: "\<exists>st'. process_row ?c {} {''bob''} (PNone, [])
             [PNone, PStr ''2 - BOB'', PNone, PNone] = Inr st'"
    by blast
  from p 1 2 n 3 show ?thesis by blast
qed

text \<open>
  C1 as stated fails on group rows: the row below has a Level cell, its email is in the
  roster's email set, and no entry is emitted for it.
\<close>

theorem match_rule_counterexample:
  "build_lookup_sets [''Email''] [[PStr ''a@x.com'']] = Inr ({''a@x.com''}, {}) \<and>
   email_key ([PStr ''Team A'', PStr ''1 - Jane'', PStr ''a@x.com'', PInt 5] ! 2) \<in> {''a@x.com''} \<and>
   process_row \<lparr>idx_level = 0, idx_empinfo = 1, idx_email = 2, idx_missing = 3\<rparr>
     {''a@x.com''} {} (PNone, []) [PStr ''Team A'', PStr ''1 - Jane'', PStr ''a@x.com'', PInt 5]
     = Inr (PStr ''Team A'', []) \<and>
   upload [[PStr ''Level'', PStr ''Emp ID - Name'', PStr ''Email ID'', PStr ''Sum of Missing Time''],
           [PStr ''Team A'', PStr ''1 - Jane'', PStr ''a@x.com'', PInt 5]]
          [[PStr ''Email''], [PStr ''a@x.com'']]
     = Inr (ResultPage [], 200)"
  by code_simp

section \<open>The loop over the data rows\<close>

lemma process_rows_append:
  "process_rows c E N st (xs @ ys) =
     (case process_rows c E N st xs of Inl e \<Rightarrow> Inl e | Inr st' \<Rightarrow> process_rows c E N st' ys)"
  by (induction xs arbitrary: st) (auto split: sum.splits)

lemma process_rows_blank:
  assumes "list_all (\<lambda>r. \<not> is_group_row (r ! idx_level c)) rows"
    and "process_rows c E N (cur, res) rows = Inr (cur', res')"
  shows "cur' = cur \<and> (\<exists>new. res' = res @ new \<and> list_all (\<lambda>e. Level e = cur) new)"
  using assms
proof (induction rows arbitrary: res)
  case Nil
  then show ?case by simp
next
  case (Cons row rows)
  from Cons.prems(2) obtain st1 where s1: "process_row c E N (cur, res) row = Inr st1"
    and s2: "process_rows c E N st1 rows = Inr (cur', res')"
    by (auto split: sum.splits)
  obtain cur1 res1 where st1: "st1 = (cur1, res1)" by (cases st1)
  from Cons.prems(1) have ng: "\<not> is_group_row (row ! idx_level c)" by simp
  from process_row_Inr [OF s1 [unfolded st1]] ng
  have c1: "cur1 = cur" and r1: "res1 = res \<or> res1 = res @ [entry_of c cur row]"
    by (auto split: if_splits)
  from Cons.prems(1) have "list_all (\<lambda>r. \<not> is_group_row (r ! idx_level c)) rows" by simp
  from Cons.IH [OF this, of res1] s2 st1 c1
  obtain new where n: "cur' = cur" "res' = res1 @ new" "list_all (\<lambda>e. Level e = cur) new"
    by auto
  from r1 show ?case
  proof
    assume "res1 = res"
    with n show ?thesis by auto
  next
    assume "res1 = res @ [entry_of c cur row]"
    with n have "res' = res @ (entry_of c cur row # new)"
      "list_all (\<lambda>e. Level e = cur) (entry_of c cur row # new)"
      by (simp_all add: entry_of_def)
    with n(1) show ?thesis by blast
  qed
qed

lemma process_rows_group_block:
  assumes run: "process_rows c E N st (before @ g # block) = Inr (cur', res')"
    and g: "idx_level c < length g" "is_group_row (g ! idx_level c)"
    and block: "list_all (\<lambda>r. \<not> is_group_row (r ! idx_level c)) block"
  shows "\<exists>cur1 res1 new.
     process_rows c E N st before = Inr (cur1, res1) \<and>
     process_rows c E N st (before @ [g]) = Inr (g ! idx_level c, res1) \<and>
     cur' = g ! idx_level c \<and> res' = res1 @ new \<and>
     list_all (\<lambda>e. Level e = g ! idx_level c) new"
proof -
  from run obtain st1 where b: "process_rows c E N st before = Inr st1"
    and r: "process_rows c E N st1 (g # block) = Inr (cur', res')"
    by (auto simp: process_rows_append split: sum.splits)
  obtain cur1 res1 where st1: "st1 = (cur1, res1)" by (cases st1)
  have pg: "process_row c E N (cur1, res1) g = Inr (g ! idx_level c, res1)"
    using g by (rule process_row_group)
  with r st1 have bl: "process_rows c E N (g ! idx_level c, res1) block = Inr (cur', res')"
    by simp
  from process_rows_blank [OF block bl]
  obtain new where n: "cur' = g ! idx_level c" "res' = res1 @ new"
      "list_all (\<lambda>e. Level e = g ! idx_level c) new"
    by blast
  from b st1 pg have "process_rows c E N st (before @ [g]) = Inr (g ! idx_level c, res1)"
    by (simp add: process_rows_append)
  with b st1 n show ?thesis by blast
qed

text \<open>
  C3. A data row whose Level cell is not blank gives no entry: it leaves the result list as
  it is and sets the carried level to the cell's raw value. Every entry emitted by the rows
  that follow, up to the next row with a Level cell, carries that raw value as its Level.
  The carried level starts as \<^verbatim>\<open>None\<close>, and the entries emitted before any group row
  carry \<^verbatim>\<open>None\<close>.
\<close>

theorem level_carry:
  "(idx_level c < length g \<and> is_group_row (g ! idx_level c) \<longrightarrow>
      process_row c E N (cur, res) g = Inr (g ! idx_level c, res)) \<and>
   (process_rows c E N st (before @ g # block) = Inr (cur', res') \<and>
    idx_level c < length g \<and> is_group_row (g ! idx_level c) \<and>
    list_all (\<lambda>r. \<not> is_group_row (r ! idx_level c)) block \<longrightarrow>
      (\<exists>cur1 res1 new.
         process_rows c E N st before = Inr (cur1, res1) \<and>
         process_rows c E N st (before @ [g]) = Inr (g ! idx_level c, res1) \<and>
         cur' = g ! idx_level c \<and> res' = res1 @ new \<and>
         list_all (\<lambda>e. Level e = g ! idx_level c) new)) \<and>
   fst initial_state = PNone \<and>
   (process_rows c E N initial_state block = Inr (cur', res') \<and>
    list_all (\<lambda>r. \<not> is_group_row (r ! idx_level c)) block \<longrightarrow>
      cur' = PNone \<and> list_all (\<lambda>e. Level e = PNone) res')"
proof (intro conjI impI)
  assume "idx_level c < length g \<and> is_group_row (g ! idx_level c)"
  then show "process_row c E N (cur, res) g = Inr (g ! idx_level c, res)"
    by (simp add: process_row_group)
next
  assume a: "process_rows c E N st (before @ g # block) = Inr (cur', res') \<and>
    idx_level c < length g \<and> is_group_row (g ! idx_level c) \<and>
    list_all (\<lambda>r. \<not> is_group_row (r ! idx_level c)) block"
  then show "\<exists>cur1 res1 new.
         process_rows c E N st before = Inr (cur1, res1) \<and>
         process_rows c E N st (before @ [g]) = Inr (g ! idx_level c, res1) \<and>
         cur' = g ! idx_level c \<and> res' = res1 @ new \<and>
         list_all (\<lambda>e. Level e = g ! idx_level c) new"
    using process_rows_group_block [of c E N st before g block cur' res'] by blast
next
  show "fst initial_state = PNone" by (simp add: initial_state_def)
next
  assume a: "process_rows c E N initial_state block = Inr (cur', res') \<and>
    list_all (\<lambda>r. \<not> is_group_row (r ! idx_level c)) block"
  then have "cur' = PNone \<and> (\<exists>new. res' = [] @ new \<and> list_all (\<lambda>e. Level e = PNone) new)"
    using process_rows_blank [of c block E N PNone "[]" cur' res']
    by (simp add: initial_state_def)
  then show "cur' = PNone" and "list_all (\<lambda>e. Level e = PNone) res'" by auto
qed

theorem level_carry_witness:
  "is_group_row (PStr ''Team A'') \<and>
   process_row \<lparr>idx_level = 0, idx_empinfo = 1, idx_email = 2, idx_missing = 3\<rparr>
     {''a@x.com''} {} (PStr ''Old'', []) [PStr ''Team A'', PNone, PStr ''a@x.com'', PNone]
     = Inr (PStr ''Team A'', []) \<and>
   process_rows \<lparr>idx_level = 0, idx_empinfo = 1, idx_email = 2, idx_missing = 3\<rparr>
     {''a@x.com''} {} initial_state
     ([[PNone, PStr ''1 - Jane'', PStr ''a@x.com'', PInt 5]]
      @ [PStr ''Team A'', PNone, PStr ''a@x.com'', PNone]
      # [[PStr '''', PStr ''2 - Bob'', PStr ''A@X.com'', PInt 7],
         [PNone, PStr ''3 - Al'', PStr ''z@x.com'', PInt 1]])
     = Inr (PStr ''Team A'',
            [\<lparr>Level = PNone, Name = ''Jane'', Email_ID = PStr ''a@x.com'', Missing_Time = PInt 5\<rparr>]
            @ [\<lparr>Level = PStr ''Team A'', Name = ''Bob'', Email_ID = PStr ''A@X.com'',
                Missing_Time = PInt 7\<rparr>]) \<and>
   (\<exists>cur1 res1 new.
      process_rows \<lparr>idx_level = 0, idx_empinfo = 1, idx_email = 2, idx_missing = 3\<rparr>
        {''a@x.com''} {} initial_state [[PNone, PStr ''1 - Jane'', PStr ''a@x.com'', PInt 5]]
        = Inr (cur1, res1) \<and>
      [\<lparr>Level = PNone, Name = ''Jane'', Email_ID = PStr ''a@x.com'', Missing_Time = PInt 5\<rparr>]
        @ [\<lparr>Level = PStr ''Team A'', Name = ''Bob'', Email_ID = PStr ''A@X.com'',
             Missing_Time = PInt 7\<rparr>] = res1 @ new \<and>
      list_all (\<lambda>e. Level e = PStr ''Team A'') new) \<and>
   process_rows \<lparr>idx_level = 0, idx_empinfo = 1, idx_email = 2, idx_missing = 3\<rparr>
     {''a@x.com''} {} initial_state [[PNone, PStr ''1 - Jane'', PStr ''a@x.com'', PInt 5]]
     = Inr (PNone,
            [\<lparr>Level = PNone, Name = ''Jane'', Email_ID = PStr ''a@x.com'', Missing_Time = PInt 5\<rparr>]) \<and>
   list_all (\<lambda>e. Level e = PNone)
     [\<lparr>Level = PNone, Name = ''Jane'', Email_ID = PStr ''a@x.com'', Missing_Time = PInt 5\<rparr>]"
proof -
  let ?c = "\<lparr>idx_level = 0, idx_empinfo = 1, idx_email = 2, idx_missing = 3\<rparr>"
  let ?E = "{''a@x.com''}"
  let ?N = "{} :: string set"
  let ?before = "[[PNone, PStr ''1 - Jane'', PStr ''a@x.com'', PInt 5]]"
  let ?g = "[PStr ''Team A'', PNone, PStr ''a@x.com'', PNone]"
  let ?block = "[[PStr '''', PStr ''2 - Bob'', PStr ''A@X.com'', PInt 7],
         [PNone, PStr ''3 - Al'', PStr ''z@x.com'', PInt 1]]"
  let ?e1 = "\<lparr>Level = PNone, Name = ''Jane'', Email_ID = PStr ''a@x.com'', Missing_Time = PInt 5\<rparr>"
  let ?e2 = "\<lparr>Level = PStr ''Team A'', Name = ''Bob'', Email_ID = PStr ''A@X.com'',
                Missing_Time = PInt 7\<rparr>"
  have g1: "idx_level ?c < length ?g" by simp
  have g2: "is_group_row (?g ! idx_level ?c)" by code_simp
  have g2': "is_group_row (PStr ''Team A'')" by code_simp
  have gv: "?g ! idx_level ?c = PStr ''Team A''" by simp
  have run: "process_rows ?c ?E ?N initial_state (?before @ ?g # ?block)
     = Inr (PStr ''Team A'', [?e1] @ [?e2])"
    by code_simp
  have bl: "list_all (\<lambda>r. \<not> is_group_row (r ! idx_level ?c)) ?block" by code_simp
  have runb: "process_rows ?c ?E ?N initial_state ?before = Inr (PNone, [?e1])"
    by code_simp
  have blb: "list_all (\<lambda>r. \<not> is_group_row (r ! idx_level ?c)) ?before" by code_simp
  note t1 = level_carry [where c = ?c and g = ?g and E = ?E and N = ?N and cur = "PStr ''Old''"
      and res = "[]" and st = initial_state and before = ?before and block = ?block
      and cur' = "PStr ''Team A''" and res' = "[?e1] @ [?e2]"]
  note t2 = level_carry [where c = ?c and g = ?g and E = ?E and N = ?N and cur = "PStr ''Old''"
      and res = "[]" and st = initial_state and before = "[]" and block = ?before
      and cur' = PNone and res' = "[?e1]"]
  from t1 g1 g2 have 1: "process_row ?c ?E ?N (PStr ''Old'', []) ?g = Inr (?g ! idx_level ?c, [])"
    by blast
  from t1 g1 g2 run bl have 2: "\<exists>cur1 res1 new.
      process_rows ?c ?E ?N initial_state ?before = Inr (cur1, res1) \<and>
      [?e1] @ [?e2] = res1 @ new \<and> list_all (\<lambda>e. Level e = ?g ! idx_level ?c) new"
    by blast
  from t2 runb blb have 3: "list_all (\<lambda>e. Level e = PNone) [?e1]" by blast
  from g2' 1 run 2 runb 3 show ?thesis unfolding gv by blast
qed

section \<open>The result list\<close>

lemma process_rows_results:
  assumes "process_rows c E N (cur, res) rows = Inr (cur', res')"
  shows "res' = res @ map (\<lambda>(lvl, row). entry_of c lvl row)
                       (filter (\<lambda>(lvl, row). matches c E N row) (zip (carried c cur rows) rows))"
  using assms
proof (induction rows arbitrary: cur res)
  case Nil
  then show ?case by simp
next
  case (Cons row rows)
  from Cons.prems obtain st1 where s1: "process_row c E N (cur, res) row = Inr st1"
    and s2: "process_rows c E N st1 rows = Inr (cur', res')"
    by (auto split: sum.splits)
  obtain cur1 res1 where st1: "st1 = (cur1, res1)" by (cases st1)
  note step = process_row_Inr [OF s1 [unfolded st1]]
  note ih = Cons.IH [OF s2 [unfolded st1]]
  show ?case
  proof (cases "is_group_row (row ! idx_level c)")
    case True
    with step have "cur1 = row ! idx_level c" "res1 = res" by simp_all
    moreover from True have "\<not> matches c E N row" by (simp add: matches_def)
    ultimately show ?thesis using ih True by simp
  next
    case False
    with step have c1: "cur1 = cur" by simp
    show ?thesis
    proof (cases "matches c E N row")
      case True
      with step False have "res1 = res @ [entry_of c cur row]" by simp
      with ih c1 True False show ?thesis by simp
    next
      case nm: False
      with step False have "res1 = res" by simp
      with ih c1 nm False show ?thesis by simp
    qed
  qed
qed

text \<open>
  C9. When the view renders a result page, its entry list is the list of data rows (the rows
  below the monthly header), each paired with the level carried on reaching it, filtered by
  the match rule and mapped to its entry: the entries keep the order of the rows, and nothing
  is merged, dropped or grouped after the filter.
\<close>

theorem results_in_row_order:
  assumes "upload all_rows mgr_rows = Inr (ResultPage results, status)"
  shows "\<exists>h headers c hdr2 mgr_data E N.
     find_header 0 all_rows = Inr (Some (h, headers)) \<and>
     locate_columns headers = Some c \<and>
     find_roster_header mgr_rows = Inr (Some (hdr2, mgr_data)) \<and>
     build_lookup_sets hdr2 mgr_data = Inr (E, N) \<and>
     results = map (\<lambda>(lvl, row). entry_of c lvl row)
                 (filter (\<lambda>(lvl, row). matches c E N row)
                    (zip (carried c PNone (drop (Suc h) all_rows)) (drop (Suc h) all_rows)))"
proof -
  from upload_ResultPage [OF assms] obtain h headers c hdr2 mgr_data E N cur where
    f: "find_header 0 all_rows = Inr (Some (h, headers))" "locate_columns headers = Some c"
       "find_roster_header mgr_rows = Inr (Some (hdr2, mgr_data))"
       "build_lookup_sets hdr2 mgr_data = Inr (E, N)"
    and p: "process_rows c E N initial_state (drop (Suc h) all_rows) = Inr (cur, results)"
    by blast
  from p have "process_rows c E N (PNone, []) (drop (Suc h) all_rows) = Inr (cur, results)"
    by (simp add: initial_state_def)
  from process_rows_results [OF this] f show ?thesis by auto
qed

theorem results_in_row_order_witness:
  "upload
     [[PStr ''Level'', PStr ''Emp ID - Name'', PStr ''Email ID'', PStr ''Sum of Missing Time''],
      [PStr ''Team B'', PNone, PNone, PNone],
      [PNone, PStr ''9 - Zed'', PStr ''z@x.com'', PInt 2],
      [PNone, PStr ''4 - Eve'', PStr ''e@x.com'', PInt 8],
      [PStr ''Team A'', PNone, PNone, PNone],
      [PNone, PStr ''1 - Amy'', PStr ''a@x.com'', PInt 5],
      [PNone, PStr ''9 - Zed'', PStr ''z@x.com'', PInt 2]]
     [[PStr ''Email''], [PStr ''a@x.com''], [PStr ''z@x.com'']]
   = Inr (ResultPage
       [\<lparr>Level = PStr ''Team B'', Name = ''Zed'', Email_ID = PStr ''z@x.com'', Missing_Time = PInt 2\<rparr>,
        \<lparr>Level = PStr ''Team A'', Name = ''Amy'', Email_ID = PStr ''a@x.com'', Missing_Time = PInt 5\<rparr>,
        \<lparr>Level = PStr ''Team A'', Name = ''Zed'', Email_ID = PStr ''z@x.com'', Missing_Time = PInt 2\<rparr>],
       200) \<and>
   (\<exists>h headers c hdr2 mgr_data E N.
     find_header 0
       [[PStr ''Level'', PStr ''Emp ID - Name'', PStr ''Email ID'', PStr ''Sum of Missing Time''],
        [PStr ''Team B'', PNone, PNone, PNone],
        [PNone, PStr ''9 - Zed'', PStr ''z@x.com'', PInt 2],
        [PNone, PStr ''4 - Eve'', PStr ''e@x.com'', PInt 8],
        [PStr ''Team A'', PNone, PNone, PNone],
        [PNone, PStr ''1 - Amy'', PStr ''a@x.com'', PInt 5],
        [PNone, PStr ''9 - Zed'', PStr ''z@x.com'', PInt 2]] = Inr (Some (h, headers)) \<and>
     locate_columns headers = Some c \<and>
     find_roster_header [[PStr ''Email''], [PStr ''a@x.com''], [PStr ''z@x.com'']]
       = Inr (Some (hdr2, mgr_data)) \<and>
     build_lookup_sets hdr2 mgr_data = Inr (E, N) \<and>
     [\<lparr>Level = PStr ''Team B'', Name = ''Zed'', Email_ID = PStr ''z@x.com'', Missing_Time = PInt 2\<rparr>,
      \<lparr>Level = PStr ''Team A'', Name = ''Amy'', Email_ID = PStr ''a@x.com'', Missing_Time = PInt 5\<rparr>,
      \<lparr>Level = PStr ''Team A'', Name = ''Zed'', Email_ID = PStr ''z@x.com'', Missing_Time = PInt 2\<rparr>]
     = map (\<lambda>(lvl, row). entry_of c lvl row)
         (filter (\<lambda>(lvl, row). matches c E N row)
            (zip (carried c PNone (drop (Suc h)
               [[PStr ''Level'', PStr ''Emp ID - Name'', PStr ''Email ID'', PStr ''Sum of Missing Time''],
                [PStr ''Team B'', PNone, PNone, PNone],
                [PNone, PStr ''9 - Zed'', PStr ''z@x.com'', PInt 2],
                [PNone, PStr ''4 - Eve'', PStr ''e@x.com'', PInt 8],
                [PStr ''Team A'', PNone, PNone, PNone],
                [PNone, PStr ''1 - Amy'', PStr ''a@x.com'', PInt 5],
                [PNone, PStr ''9 - Zed'', PStr ''z@x.com'', PInt 2]]))
              (drop (Suc h)
               [[PStr ''Level'', PStr ''Emp ID - Name'', PStr ''Email ID'', PStr ''Sum of Missing Time''],
                [PStr ''Team B'', PNone, PNone, PNone],
                [PNone, PStr ''9 - Zed'', PStr ''z@x.com'', PInt 2],
                [PNone, PStr ''4 - Eve'', PStr ''e@x.com'', PInt 8],
                [PStr ''Team A'', PNone, PNone, PNone],
                [PNone, PStr ''1 - Amy'', PStr ''a@x.com'', PInt 5],
                [PNone, PStr ''9 - Zed'', PStr ''z@x.com'', PInt 2]]))))"
proof -
  let ?M = "[[PStr ''Level'', PStr ''Emp ID - Name'', PStr ''Email ID'', PStr ''Sum of Missing Time''],
      [PStr ''Team B'', PNone, PNone, PNone],
      [PNone, PStr ''9 - Zed'', PStr ''z@x.com'', PInt 2],
      [PNone, PStr ''4 - Eve'', PStr ''e@x.com'', PInt 8],
      [PStr ''Team A'', PNone, PNone, PNone],
      [PNone, PStr ''1 - Amy'', PStr ''a@x.com'', PInt 5],
      [PNone, PStr ''9 - Zed'', PStr ''z@x.com'', PInt 2]]"
  let ?R = "[[PStr ''Email''], [PStr ''a@x.com''], [PStr ''z@x.com'']]"
  have u: "upload ?M ?R = Inr (ResultPage
       [\<lparr>Level = PStr ''Team B'', Name = ''Zed'', Email_ID = PStr ''z@x.com'', Missing_Time = PInt 2\<rparr>,
        \<lparr>Level = PStr ''Team A'', Name = ''Amy'', Email_ID = PStr ''a@x.com'', Missing_Time = PInt 5\<rparr>,
        \<lparr>Level = PStr ''Team A'', Name = ''Zed'', Email_ID = PStr ''z@x.com'', Missing_Time = PInt 2\<rparr>],
       200)"
    by code_simp
  from u results_in_row_order [OF u] show ?thesis by (rule conjI)
qed

section \<open>The empty key\<close>

lemma py_strip_Nil_iff: "py_strip s = [] \<longleftrightarrow> list_all py_isspace s"
proof
  assume "py_strip s = []"
  then have a: "\<forall>x\<in>set (dropWhile py_isspace s). py_isspace x"
    by (simp add: py_strip_def dropWhile_eq_Nil_conv)
  have "dropWhile py_isspace s = []"
  proof (rule ccontr)
    assume n: "dropWhile py_isspace s \<noteq> []"
    then have "\<not> py_isspace (hd (dropWhile py_isspace s))" by (rule hd_dropWhile)
    moreover from n have "hd (dropWhile py_isspace s) \<in> set (dropWhile py_isspace s)" by simp
    ultimately show False using a by blast
  qed
  then show "list_all py_isspace s" by (simp add: dropWhile_eq_Nil_conv list_all_iff)
next
  assume "list_all py_isspace s"
  then have "dropWhile py_isspace s = []" by (simp add: dropWhile_eq_Nil_conv list_all_iff)
  then show "py_strip s = []" unfolding py_strip_def by (simp only: rev.simps dropWhile.simps)
qed

lemma py_isspace_code_point:
  "py_isspace c \<Longrightarrow> (of_char c :: nat) \<in> {9, 10, 11, 12, 13, 28, 29, 30, 31, 32, 133, 160}"
  unfolding py_isspace_def by auto

lemma digit_not_space: "d < 10 \<Longrightarrow> \<not> py_isspace (digit_char d)"
proof
  assume d: "d < 10" and "py_isspace (digit_char d)"
  then have "(of_char (digit_char d) :: nat) \<in> {9, 10, 11, 12, 13, 28, 29, 30, 31, 32, 133, 160}"
    by (rule_tac py_isspace_code_point)
  moreover from d have "(of_char (digit_char d) :: nat) = 48 + d"
    by (simp add: digit_char_def)
  ultimately show False using d by auto
qed

lemma digits_has_digit: "\<exists>d<10. digit_char d \<in> set (digits n)"
proof (cases "n < 10")
  case True
  then show ?thesis by (subst digits.simps) auto
next
  case False
  have "n mod 10 < 10" by simp
  moreover from False have "digit_char (n mod 10) \<in> set (digits n)"
    by (subst digits.simps) simp
  ultimately show ?thesis by blast
qed

lemma str_int_not_blank: "\<not> list_all py_isspace (str_int i)"
proof -
  obtain d where d: "d < 10" "digit_char d \<in> set (digits (nat \<bar>i\<bar>))"
    using digits_has_digit by blast
  then have "digit_char d \<in> set (str_int i)"
    by (auto simp: str_int_def abs_if split: if_splits)
  with d(1) show ?thesis using digit_not_space by (auto simp: list_all_iff)
qed

lemma norm_key_Nil_iff: "truthy v \<and> norm_key v = [] \<longleftrightarrow> blank_text v"
proof (cases v)
  case PNone
  then show ?thesis by (simp add: blank_text_def)
next
  case (PStr s)
  then show ?thesis by (auto simp: blank_text_def norm_key_def py_lower_def py_strip_Nil_iff)
next
  case (PInt i)
  then show ?thesis
    using str_int_not_blank [of i]
    by (simp add: blank_text_def norm_key_def py_lower_def py_strip_Nil_iff)
next
  case (PBool b)
  have "\<not> list_all py_isspace ''True''" by code_simp
  with PBool show ?thesis
    by (simp add: blank_text_def norm_key_def py_lower_def py_strip_Nil_iff)
qed

text \<open>
  The empty key is in the lookup set of a roster column exactly when some row below the
  roster header holds a whitespace-only string in that column: such a cell is true for
  Python, so the filter keeps it, and trimming then empties it.
\<close>

theorem empty_key_in_keys:
  "[] \<in> keys_of truthy i rows \<longleftrightarrow> list_ex (\<lambda>r. blank_text (r ! i)) rows"
proof -
  have "[] \<in> keys_of truthy i rows \<longleftrightarrow> (\<exists>r\<in>set rows. truthy (r ! i) \<and> norm_key (r ! i) = [])"
    by (force simp: keys_of_def)
  then show ?thesis by (simp add: norm_key_Nil_iff list_ex_iff)
qed

theorem empty_key_in_keys_witness:
  "list_ex (\<lambda>r. blank_text (r ! 0)) [[PStr ''a@x.com''], [PStr ''  '']] \<and>
   [] \<in> keys_of truthy 0 [[PStr ''a@x.com''], [PStr ''  '']] \<and>
   \<not> list_ex (\<lambda>r. blank_text (r ! 0)) [[PStr ''a@x.com''], [PNone], [PInt 0], [PStr []]] \<and>
   [] \<notin> keys_of truthy 0 [[PStr ''a@x.com''], [PNone], [PInt 0], [PStr []]]"
proof -
  have a: "list_ex (\<lambda>r. blank_text (r ! 0)) [[PStr ''a@x.com''], [PStr ''  '']]"
    by code_simp
  have b: "\<not> list_ex (\<lambda>r. blank_text (r ! 0)) [[PStr ''a@x.com''], [PNone], [PInt 0], [PStr []]]"
    by code_simp
  from empty_key_in_keys [of 0 "[[PStr ''a@x.com''], [PStr ''  '']]"] a
  have 1: "[] \<in> keys_of truthy 0 [[PStr ''a@x.com''], [PStr ''  '']]" by simp
  from empty_key_in_keys [of 0 "[[PStr ''a@x.com''], [PNone], [PInt 0], [PStr []]]"] b
  have 2: "[] \<notin> keys_of truthy 0 [[PStr ''a@x.com''], [PNone], [PInt 0], [PStr []]]" by simp
  from a 1 b 2 show ?thesis by blast
qed

section \<open>Exceptions that leave the view\<close>

lemma process_row_Inl: "process_row c E N st row = Inl e \<Longrightarrow> e = IndexError"
  by (cases st) (auto simp: process_row_def py_index_def split: if_splits sum.splits)

lemma process_rows_Inl: "process_rows c E N st rows = Inl e \<Longrightarrow> e = IndexError"
  by (induction rows arbitrary: st) (auto split: sum.splits dest: process_row_Inl)

lemma build_lookup_sets_Inl:
  assumes "list_ex is_email hdr2" and "build_lookup_sets hdr2 mgr_data = Inl e"
  shows "e = IndexError"
proof -
  from assms(1) obtain i where "first_index is_email hdr2 = Some i"
    using leftmost_exists by blast
  with assms(2) show ?thesis
    by (auto simp: build_lookup_sets_def lookup_set_Inl_iff split: option.splits sum.splits)
qed

text \<open>
  The only exceptions that leave the view from step 5 on are the \<^verbatim>\<open>AttributeError\<close> of
  the header scans and the \<^verbatim>\<open>IndexError\<close> of a row shorter than a column read; the
  \<^verbatim>\<open>next\<close> without default of line 136 never exhausts its generator.
\<close>

theorem upload_raises_only:
  assumes "upload all_rows mgr_rows = Inl e"
  shows "e = AttributeError \<or> e = IndexError"
proof (cases "find_header 0 all_rows")
  case (Inl e')
  with assms show ?thesis by (auto simp: upload_def dest: find_header_Inl_AttributeError)
next
  case (Inr r)
  show ?thesis
  proof (cases r)
    case None
    with Inr assms show ?thesis by (simp add: upload_def)
  next
    case (Some p)
    obtain h hs where "p = (h, hs)" by (cases p)
    with Inr Some have f: "find_header 0 all_rows = Inr (Some (h, hs))" by simp
    from upload_after_header [OF f, of mgr_rows] obtain c
      where u: "upload all_rows mgr_rows =
          (case find_roster_header mgr_rows of
             Inl e \<Rightarrow> Inl e
           | Inr None \<Rightarrow> Inr (RosterHeaderNotFound, 400)
           | Inr (Some (hdr2, mgr_data)) \<Rightarrow>
               (case build_lookup_sets hdr2 mgr_data of
                  Inl e \<Rightarrow> Inl e
                | Inr (E, N) \<Rightarrow>
                    (case process_rows c E N initial_state (drop (Suc h) all_rows) of
                       Inl e \<Rightarrow> Inl e
                     | Inr (cur, results) \<Rightarrow> Inr (ResultPage results, 200))))"
      by blast
    show ?thesis
    proof (cases "find_roster_header mgr_rows")
      case (Inl e')
      with assms u show ?thesis by (auto dest: find_roster_header_Inl_AttributeError)
    next
      case r2: (Inr r2)
      show ?thesis
      proof (cases r2)
        case None
        with r2 assms u show ?thesis by simp
      next
        case (Some q)
        obtain hdr2 mgr_data where q: "q = (hdr2, mgr_data)" by (cases q)
        with r2 Some have fr: "find_roster_header mgr_rows = Inr (Some (hdr2, mgr_data))" by simp
        then have em: "list_ex is_email hdr2"
          using find_roster_header_Some_iff [of mgr_rows hdr2 mgr_data] by blast
        from assms u fr show ?thesis
          by (auto split: sum.splits dest: build_lookup_sets_Inl [OF em] process_rows_Inl)
      qed
    qed
  qed
qed

theorem upload_raises_only_witness:
  "upload [[PStr ''Level'', PStr ''Emp ID - Name'', PStr ''Email ID'', PStr ''Sum of Missing Time''],
           [PNone]]
          [[PStr ''Email'']] = Inl IndexError \<and>
   (IndexError = AttributeError \<or> IndexError = IndexError)"
proof -
  have u: "upload [[PStr ''Level'', PStr ''Emp ID - Name'', PStr ''Email ID'',
                    PStr ''Sum of Missing Time''], [PNone]]
          [[PStr ''Email'']] = Inl IndexError"
    by code_simp
  from u upload_raises_only [OF u] show ?thesis by (rule conjI)
qed

section \<open>Absent cells\<close>

text \<open>
  C8 at its failing input. An absent (\<^verbatim>\<open>None\<close>) Email or EmployeeInfo cell does give the
  empty key, and reading it raises nothing. But the roster filter tests the raw cell before
  trimming it (lines 144 and 151): a roster cell holding one space is true for Python, so its
  normalised form, the empty string, enters the email set, and a data row whose Email and
  EmployeeInfo cells are absent then matches through the empty key and gives an entry.
\<close>

theorem absent_cells_match_blank_roster_key:
  "email_key PNone = [] \<and>
   py_lower (name_part (empinfo_of PNone)) = [] \<and>
   build_lookup_sets [''Email''] [[PStr '' '']] = Inr ({[]}, {}) \<and>
   upload
     [[PStr ''Level'', PStr ''Emp ID - Name'', PStr ''Email ID'', PStr ''Sum of Missing Time''],
      [PNone, PNone, PNone, PInt 3]]
     [[PStr ''Email''], [PStr '' '']]
   = Inr (ResultPage
       [\<lparr>Level = PNone, Name = [], Email_ID = PNone, Missing_Time = PInt 3\<rparr>], 200)"
  by code_simp

end
